theory Spec2Isabelle
  imports Main "HOL-Library.Word"
begin

section \<open>Strings\<close>

text \<open>
  A JavaScript string is a sequence of UTF-16 code units. The literals of the source are
  ASCII; \<open>js\<close> turns an ASCII literal into its code units.
\<close>

type_synonym jschar = "16 word"
type_synonym jsstring = "jschar list"

definition js :: "string \<Rightarrow> jsstring" where
  "js s = map of_char s"

text \<open>
  \<^verbatim>\<open>String.prototype.trim\<close> strips white space and line terminators from both ends:
  TAB, LF, VT, FF, CR, SPACE, NBSP, U+1680, U+2000..U+200A, U+2028, U+2029, U+202F,
  U+205F, U+3000 and U+FEFF.
\<close>

definition isWhiteSpace :: "jschar \<Rightarrow> bool" where
  "isWhiteSpace c \<longleftrightarrow>
     c \<in> {0x09, 0x0A, 0x0B, 0x0C, 0x0D, 0x20, 0xA0, 0x1680, 0x2028, 0x2029,
          0x202F, 0x205F, 0x3000, 0xFEFF} \<or> (0x2000 \<le> c \<and> c \<le> 0x200A)"

definition trim :: "jsstring \<Rightarrow> jsstring" where
  "trim s = rev (dropWhile isWhiteSpace (rev (dropWhile isWhiteSpace s)))"

definition startsWith :: "jsstring \<Rightarrow> jsstring \<Rightarrow> bool" where
  "startsWith line p \<longleftrightarrow> take (length p) line = p"

definition slice :: "nat \<Rightarrow> jsstring \<Rightarrow> jsstring" where
  "slice n line = drop n line"

text \<open>
  \<^verbatim>\<open>buffer.split('\n')\<close>: the pieces between the line feeds, always at least one piece
  (the empty string splits into one empty piece).
\<close>

fun split_nl :: "jsstring \<Rightarrow> jsstring list" where
  "split_nl [] = [[]]"
| "split_nl (c # cs) =
     (if c = 0x0A then [] # split_nl cs
      else (case split_nl cs of [] \<Rightarrow> [[c]] | l # ls \<Rightarrow> (c # l) # ls))"

text \<open>
  \<^verbatim>\<open>Number.prototype.toString\<close> on a non-negative integer below \<open>10^21\<close>: its decimal
  digits. The numbers of the source are readings of \<^verbatim>\<open>Date.now()\<close> (milliseconds since the
  epoch), and such a reading plus one.
\<close>

definition digit :: "nat \<Rightarrow> jschar" where
  "digit d = of_nat (48 + d)"

fun toString :: "nat \<Rightarrow> jsstring" where
  "toString n = (if n < 10 then [digit n] else toString (n div 10) @ [digit (n mod 10)])"

declare toString.simps [simp del]

section \<open>Data model\<close>

datatype MessageType = human | ai

text \<open>
  The object built by the \<open>complete\<close> case spreads the streaming metadata into the
  message metadata, so at run time the metadata of a message also carries \<open>final_answer\<close>.
  An optional field that is absent is \<open>None\<close>.
\<close>

record StreamingMetadata =
  domain_analysis :: "jsstring option"
  ux_analysis :: "jsstring option"
  technical_analysis :: "jsstring option"
  revenue_analysis :: "jsstring option"
  moderator_aggregation :: "jsstring option"
  final_answer :: "jsstring option"

record Metadata = StreamingMetadata +
  processing_time :: "nat option"
  query_type :: "jsstring option"
  debate_category :: "jsstring option"
  debate_resolution :: "jsstring option"

record Message =
  msg_type :: MessageType
  msg_content :: jsstring
  msg_id :: jsstring
  metadata :: "Metadata option"

record StreamEvent =
  type :: jsstring
  content :: jsstring

record ProcessedEvent =
  title :: jsstring
  data :: jsstring

datatype thrown = Error jsstring | NotAnError

datatype console_entry =
  console_warn jsstring jsstring
| console_error jsstring thrown

text \<open>
  The state of the component: the seven \<^verbatim>\<open>useState\<close> cells of \<open>App\<close>, and the part of the
  environment the handlers act on: the callbacks scheduled with \<^verbatim>\<open>setTimeout\<close> that have
  not fired yet (delay in milliseconds and the timeline entry the callback appends), the
  console, and the number of calls of \<^verbatim>\<open>Date.now()\<close> made so far.
\<close>

record App =
  messages :: "Message list"
  isLoading :: bool
  processedEventsTimeline :: "ProcessedEvent list"
  historicalActivities :: "jsstring \<rightharpoonup> ProcessedEvent list"
  error :: "jsstring option"
  currentStreamingMessage :: jsstring
  streamingMetadata :: StreamingMetadata
  timeouts :: "(nat \<times> ProcessedEvent) list"
  console :: "console_entry list"
  dateNowCalls :: nat

definition no_metadata :: StreamingMetadata where
  "no_metadata = \<lparr>domain_analysis = None, ux_analysis = None, technical_analysis = None,
     revenue_analysis = None, moderator_aggregation = None, final_answer = None\<rparr>"

text \<open>The state after the first render: the initial values given to \<^verbatim>\<open>useState\<close>.\<close>

definition initial :: App where
  "initial = \<lparr>messages = [], isLoading = False, processedEventsTimeline = [],
     historicalActivities = Map.empty, error = None, currentStreamingMessage = [],
     streamingMetadata = no_metadata, timeouts = [], console = [], dateNowCalls = 0\<rparr>"

section \<open>The handlers\<close>

text \<open>
  A handler is a closure created during one render of \<open>App\<close>. Inside it, a state variable
  read by name (\<^verbatim>\<open>currentStreamingMessage\<close>, \<^verbatim>\<open>streamingMetadata\<close>,
  \<^verbatim>\<open>processedEventsTimeline\<close>) is the constant of that render; only a setter called with
  an updater function (\<^verbatim>\<open>setX(prev => ...)\<close>) sees the current state. The values a closure
  of \<open>handleStreamEvent\<close> reads by name are its \<open>Scope\<close>.
\<close>

record Scope =
  scope_currentStreamingMessage :: jsstring
  scope_streamingMetadata :: StreamingMetadata
  scope_processedEventsTimeline :: "ProcessedEvent list"

text \<open>
  \<open>handleSubmit\<close> is memoised with \<^verbatim>\<open>useCallback(..., [apiUrl])\<close> (line 179) and
  \<open>apiUrl\<close> is the same string in every render, so the \<open>handleSubmit\<close> handed to the
  views is always the closure of the first render. The name \<open>handleStreamEvent\<close> in its
  body (line 161) is the constant of that render, that is the closure \<^verbatim>\<open>useCallback\<close>
  returned at the first render (line 182), whatever its dependency list (line 247) makes
  of later renders. The scope of that closure holds the initial values of the state
  variables.
\<close>

definition first_render :: Scope where
  "first_render = \<lparr>scope_currentStreamingMessage = [],
     scope_streamingMetadata = no_metadata, scope_processedEventsTimeline = []\<rparr>"

text \<open>The closure that would read the state \<open>s\<close> itself.\<close>

definition scope_of :: "App \<Rightarrow> Scope" where
  "scope_of s = \<lparr>scope_currentStreamingMessage = currentStreamingMessage s,
     scope_streamingMetadata = streamingMetadata s,
     scope_processedEventsTimeline = processedEventsTimeline s\<rparr>"

text \<open>
  \<^verbatim>\<open>Date.now()\<close>: the clock \<open>now\<close> gives the reading of the \<open>k\<close>-th call.
\<close>

definition Date_now :: "(nat \<Rightarrow> nat) \<Rightarrow> App \<Rightarrow> nat" where
  "Date_now now s = now (dateNowCalls s)"

definition tick :: "App \<Rightarrow> App" where
  "tick s = s\<lparr>dateNowCalls := Suc (dateNowCalls s)\<rparr>"

definition section_block :: "string \<Rightarrow> jsstring \<Rightarrow> jsstring" where
  "section_block label payload = js ''\<newline>\<newline>**'' @ js label @ js '':**\<newline>'' @ payload"

definition aiMessage :: "(nat \<Rightarrow> nat) \<Rightarrow> Scope \<Rightarrow> App \<Rightarrow> Message" where
  "aiMessage now scope s =
     \<lparr>msg_type = ai,
      msg_content = (if scope_currentStreamingMessage scope = [] then js ''Analysis completed''
                     else scope_currentStreamingMessage scope),
      msg_id = toString (Date_now now s + 1),
      metadata = Some
        \<lparr>domain_analysis = domain_analysis (scope_streamingMetadata scope),
         ux_analysis = ux_analysis (scope_streamingMetadata scope),
         technical_analysis = technical_analysis (scope_streamingMetadata scope),
         revenue_analysis = revenue_analysis (scope_streamingMetadata scope),
         moderator_aggregation = moderator_aggregation (scope_streamingMetadata scope),
         final_answer = final_answer (scope_streamingMetadata scope),
         processing_time = Some 0,
         query_type = Some (js ''general''),
         debate_category = None,
         debate_resolution = None\<rparr>\<rparr>"

definition handleStreamEvent :: "(nat \<Rightarrow> nat) \<Rightarrow> Scope \<Rightarrow> StreamEvent \<Rightarrow> App \<Rightarrow> App" where
  "handleStreamEvent now scope event s =
     (if type event = js ''domain_expert'' then
        s\<lparr>streamingMetadata := (streamingMetadata s)\<lparr>domain_analysis := Some (content event)\<rparr>,
          currentStreamingMessage :=
            currentStreamingMessage s @ section_block ''Domain Expert Analysis'' (content event)\<rparr>
      else if type event = js ''ux_ui_specialist'' then
        s\<lparr>streamingMetadata := (streamingMetadata s)\<lparr>ux_analysis := Some (content event)\<rparr>,
          currentStreamingMessage :=
            currentStreamingMessage s @ section_block ''UX/UI Specialist Analysis'' (content event)\<rparr>
      else if type event = js ''technical_architect'' then
        s\<lparr>streamingMetadata := (streamingMetadata s)\<lparr>technical_analysis := Some (content event)\<rparr>,
          currentStreamingMessage :=
            currentStreamingMessage s @ section_block ''Technical Architect Analysis'' (content event)\<rparr>
      else if type event = js ''revenue_model_analyst'' then
        s\<lparr>streamingMetadata := (streamingMetadata s)\<lparr>revenue_analysis := Some (content event)\<rparr>,
          currentStreamingMessage :=
            currentStreamingMessage s @ section_block ''Revenue Model Analyst Analysis'' (content event)\<rparr>
      else if type event = js ''moderator_aggregation'' then
        s\<lparr>streamingMetadata := (streamingMetadata s)\<lparr>moderator_aggregation := Some (content event)\<rparr>,
          currentStreamingMessage :=
            currentStreamingMessage s @ section_block ''Moderator Aggregation'' (content event)\<rparr>
      else if type event = js ''final_answer'' then
        s\<lparr>streamingMetadata := (streamingMetadata s)\<lparr>final_answer := Some (content event)\<rparr>,
          currentStreamingMessage :=
            currentStreamingMessage s @ section_block ''Final Answer'' (content event)\<rparr>
      else if type event = js ''message'' then
        s\<lparr>currentStreamingMessage := content event\<rparr>
      else if type event = js ''complete'' then
        (let m = aiMessage now scope s in
         tick (s\<lparr>messages := messages s @ [m],
                 historicalActivities :=
                   (historicalActivities s)(msg_id m \<mapsto> scope_processedEventsTimeline scope)\<rparr>))
      else if type event = js ''error'' then
        s\<lparr>error := Some (content event)\<rparr>
      else s)"

definition handleCancel :: "App \<Rightarrow> App" where
  "handleCancel s =
     s\<lparr>isLoading := False, processedEventsTimeline := [], error := None,
       currentStreamingMessage := [], streamingMetadata := no_metadata\<rparr>"

definition handleNewAnalysis :: "App \<Rightarrow> App" where
  "handleNewAnalysis s =
     s\<lparr>messages := [], processedEventsTimeline := [], historicalActivities := Map.empty,
       error := None, currentStreamingMessage := [], streamingMetadata := no_metadata,
       isLoading := False\<rparr>"

text \<open>
  The seven entries the timeline simulation of \<open>handleSubmit\<close> schedules.
\<close>

definition timelineEvents :: "ProcessedEvent list" where
  "timelineEvents =
     [\<lparr>title = js ''Query Classification'',
       data = js ''Analyzing query type and routing to appropriate specialists...''\<rparr>,
      \<lparr>title = js ''Domain Expert Analysis'',
       data = js ''Analyzing business logic and domain-specific requirements...''\<rparr>,
      \<lparr>title = js ''UX/UI Specialist Analysis'',
       data = js ''Analyzing user experience and interface design requirements...''\<rparr>,
      \<lparr>title = js ''Technical Architect Analysis'',
       data = js ''Analyzing technical architecture and implementation requirements...''\<rparr>,
      \<lparr>title = js ''Revenue Model Analyst Analysis'',
       data = js ''Analyzing revenue models and monetization strategies...''\<rparr>,
      \<lparr>title = js ''Moderator Aggregation'',
       data = js ''Consolidating feedback and resolving conflicts...''\<rparr>,
      \<lparr>title = js ''Final Answer Generation'',
       data = js ''Generating comprehensive final answer...''\<rparr>]"

text \<open>
  The part of \<open>handleSubmit\<close> that runs in the caller's turn, up to the \<^verbatim>\<open>await\<close> of
  \<^verbatim>\<open>fetch\<close>: the guard on the trimmed input (the empty string is the only falsy string),
  the five setters, the user message, and one \<^verbatim>\<open>setTimeout\<close> per timeline entry, entry
  \<open>i\<close> with delay \<open>i * 1000\<close>.
\<close>

definition handleSubmit_sync :: "(nat \<Rightarrow> nat) \<Rightarrow> jsstring \<Rightarrow> App \<Rightarrow> App" where
  "handleSubmit_sync now submittedInputValue s =
     (if trim submittedInputValue = [] then s
      else
        (let userMessage = \<lparr>msg_type = human, msg_content = submittedInputValue,
               msg_id = toString (Date_now now s), metadata = None\<rparr>
         in tick (s\<lparr>processedEventsTimeline := [], isLoading := True, error := None,
                    currentStreamingMessage := [], streamingMetadata := no_metadata,
                    messages := messages s @ [userMessage],
                    timeouts := timeouts s @
                      map (\<lambda>i. (i * 1000, timelineEvents ! i)) [0..<length timelineEvents]\<rparr>)))"

text \<open>
  A scheduled callback fires: \<^verbatim>\<open>setProcessedEventsTimeline(prev => [...prev, timelineEvents[i]])\<close>.
  Nothing in the source calls \<^verbatim>\<open>clearTimeout\<close>, so a pending callback leaves the queue
  only by firing. \<open>fireTimeout k\<close> fires the \<open>k\<close>-th pending callback.
\<close>

definition fireTimeout :: "nat \<Rightarrow> App \<Rightarrow> App" where
  "fireTimeout k s =
     (if k < length (timeouts s) then
        s\<lparr>processedEventsTimeline := processedEventsTimeline s @ [snd (timeouts s ! k)],
          timeouts := take k (timeouts s) @ drop (Suc k) (timeouts s)\<rparr>
      else s)"

text \<open>
  \<^verbatim>\<open>lines.pop() || ''\<close>: \<open>pop\<close> removes and returns the last element, \<open>undefined\<close> on
  an empty array; \<open>undefined\<close> and the empty string are falsy.
\<close>

definition pop :: "'a list \<Rightarrow> 'a option \<times> 'a list" where
  "pop xs = (if xs = [] then (None, []) else (Some (last xs), butlast xs))"

definition or_empty :: "jsstring option \<Rightarrow> jsstring" where
  "or_empty v = (case v of None \<Rightarrow> [] | Some l \<Rightarrow> if l = [] then [] else l)"

text \<open>
  The body of the loop over the lines. \<open>parse\<close> stands for the \<^verbatim>\<open>try\<close> block around
  \<^verbatim>\<open>JSON.parse\<close> and the call of \<open>handleStreamEvent\<close>: it is \<open>None\<close> when the block
  throws before the handler changes anything (a syntax error of \<^verbatim>\<open>JSON.parse\<close>, or a parsed
  \<^verbatim>\<open>null\<close>, whose \<open>type\<close> cannot be read), and the parsed event otherwise. The handler's
  parameter is declared a \<open>StreamEvent\<close>: \<open>type\<close> and \<open>content\<close> are strings.
\<close>

definition process_line ::
  "(jsstring \<Rightarrow> StreamEvent option) \<Rightarrow> (nat \<Rightarrow> nat) \<Rightarrow> Scope \<Rightarrow> jsstring \<Rightarrow> App \<Rightarrow> App" where
  "process_line parse now scope line s =
     (if startsWith line (js ''data: '') then
        (case parse (slice 6 line) of
           Some eventData \<Rightarrow> handleStreamEvent now scope eventData s
         | None \<Rightarrow> s\<lparr>console := console s @
                      [console_warn (js ''Failed to parse SSE event:'') line]\<rparr>)
      else s)"

primrec process_lines ::
  "(jsstring \<Rightarrow> StreamEvent option) \<Rightarrow> (nat \<Rightarrow> nat) \<Rightarrow> Scope \<Rightarrow> jsstring list \<Rightarrow> App \<Rightarrow> App" where
  "process_lines parse now scope [] s = s"
| "process_lines parse now scope (line # lines) s =
     process_lines parse now scope lines (process_line parse now scope line s)"

text \<open>
  The read loop, over the chunks the reader delivers before it reports \<open>done\<close>. A chunk is
  the text \<^verbatim>\<open>decoder.decode(value, {stream: true})\<close> returns for it. The loop returns the
  buffer it is left with and the state.
\<close>

fun read_loop ::
  "(jsstring \<Rightarrow> StreamEvent option) \<Rightarrow> (nat \<Rightarrow> nat) \<Rightarrow> Scope \<Rightarrow> jsstring \<Rightarrow> jsstring list \<Rightarrow> App
     \<Rightarrow> jsstring \<times> App" where
  "read_loop parse now scope buffer [] s = (buffer, s)"
| "read_loop parse now scope buffer (chunk # chunks) s =
     (let (popped, lines) = pop (split_nl (buffer @ chunk))
      in read_loop parse now scope (or_empty popped) chunks
           (process_lines parse now scope lines s))"

text \<open>
  The outer \<^verbatim>\<open>catch\<close>: \<^verbatim>\<open>console.error\<close> and
  \<^verbatim>\<open>setError(err instanceof Error ? err.message : "An error occurred")\<close>.
\<close>

definition catch_err :: "thrown \<Rightarrow> App \<Rightarrow> App" where
  "catch_err err s =
     s\<lparr>console := console s @ [console_error (js ''Streaming error:'') err],
       error := Some (case err of Error message \<Rightarrow> message
                                | NotAnError \<Rightarrow> js ''An error occurred'')\<rparr>"

text \<open>
  What the request meets: \<^verbatim>\<open>fetch\<close> rejects; the response is not ok (with its status);
  the response has no body; or the body delivers chunks and then ends, with \<open>done\<close> or with
  a rejected \<^verbatim>\<open>read\<close>.
\<close>

datatype read_end = read_done | read_rejected thrown

datatype Response =
  fetch_rejected thrown
| not_ok nat
| no_body
| body "jsstring list" read_end

text \<open>
  The rest of \<open>handleSubmit\<close>, from the \<^verbatim>\<open>try\<close> to the \<^verbatim>\<open>finally\<close> that clears the
  in-flight flag, when no other handler runs in between.
\<close>

definition handleSubmit_stream ::
  "(jsstring \<Rightarrow> StreamEvent option) \<Rightarrow> (nat \<Rightarrow> nat) \<Rightarrow> Scope \<Rightarrow> Response \<Rightarrow> App \<Rightarrow> App" where
  "handleSubmit_stream parse now scope response s =
     (case response of
        fetch_rejected err \<Rightarrow> catch_err err s
      | not_ok status \<Rightarrow> catch_err (Error (js ''HTTP error! status: '' @ toString status)) s
      | no_body \<Rightarrow> catch_err (Error (js ''No response body reader available'')) s
      | body chunks ending \<Rightarrow>
          (let s' = snd (read_loop parse now scope [] chunks s)
           in case ending of read_done \<Rightarrow> s' | read_rejected err \<Rightarrow> catch_err err s'))
     \<lparr>isLoading := False\<rparr>"

definition handleSubmit ::
  "(jsstring \<Rightarrow> StreamEvent option) \<Rightarrow> (nat \<Rightarrow> nat) \<Rightarrow> Scope \<Rightarrow> jsstring \<Rightarrow> jsstring \<Rightarrow> Response
     \<Rightarrow> App \<Rightarrow> App" where
  "handleSubmit parse now scope submittedInputValue effort response s =
     (if trim submittedInputValue = [] then s
      else handleSubmit_stream parse now scope response
             (handleSubmit_sync now submittedInputValue s))"

text \<open>
  \<^verbatim>\<open>JSON.parse\<close> on the payloads of the examples below, and a thrown syntax error on any
  other text.
\<close>

definition example_parse :: "jsstring \<Rightarrow> StreamEvent option" where
  \<open>example_parse p =
     (if p = js ''{"type":"message","content":"hi"}'' then
        Some \<lparr>type = js ''message'', content = js ''hi''\<rparr>
      else if p = js ''{"type":"domain_expert","content":"Needs CRUD"}'' then
        Some \<lparr>type = js ''domain_expert'', content = js ''Needs CRUD''\<rparr>
      else if p = js ''{"type":"error","content":"rate limited"}'' then
        Some \<lparr>type = js ''error'', content = js ''rate limited''\<rparr>
      else if p = js ''{"type":"complete","content":""}'' then
        Some \<lparr>type = js ''complete'', content = []\<rparr>
      else None)\<close>

text \<open>
  What can happen to the state in the life of the component: a submit (the synchronous
  part of \<open>handleSubmit\<close>), a stream event handled by the read loop, the end of the
  handling of a response (with the thrown value, if any, caught on the way), a cancel, a
  reset, and a scheduled callback that fires.
\<close>

datatype action =
  Submit jsstring
| Event StreamEvent
| Finished "thrown option"
| Cancel
| NewAnalysis
| Timeout nat

fun perform :: "(nat \<Rightarrow> nat) \<Rightarrow> Scope \<Rightarrow> action \<Rightarrow> App \<Rightarrow> App" where
  "perform now scope (Submit submittedInputValue) s = handleSubmit_sync now submittedInputValue s"
| "perform now scope (Event event) s = handleStreamEvent now scope event s"
| "perform now scope (Finished None) s = s\<lparr>isLoading := False\<rparr>"
| "perform now scope (Finished (Some err)) s = (catch_err err s)\<lparr>isLoading := False\<rparr>"
| "perform now scope Cancel s = handleCancel s"
| "perform now scope NewAnalysis s = handleNewAnalysis s"
| "perform now scope (Timeout k) s = fireTimeout k s"

definition run :: "(nat \<Rightarrow> nat) \<Rightarrow> Scope \<Rightarrow> action list \<Rightarrow> App \<Rightarrow> App" where
  "run now scope actions s = fold (perform now scope) actions s"

text \<open>
  The ids of the Turns are distinct and each is the decimal string of a number below the
  next reading of the clock.
\<close>

definition ids_stamped :: "(nat \<Rightarrow> nat) \<Rightarrow> App \<Rightarrow> bool" where
  "ids_stamped now s \<longleftrightarrow>
     distinct (map msg_id (messages s)) \<and>
     (\<forall>m\<in>set (messages s). \<exists>v<now (dateNowCalls s). msg_id m = toString v)"

text \<open>
  The six section tags and the label of the block each appends to the display text; the
  display text a sequence of section events adds up to, one block per event, in order of
  arrival.
\<close>

definition section_label :: "jsstring \<Rightarrow> string option" where
  "section_label tag =
     (if tag = js ''domain_expert'' then Some ''Domain Expert Analysis''
      else if tag = js ''ux_ui_specialist'' then Some ''UX/UI Specialist Analysis''
      else if tag = js ''technical_architect'' then Some ''Technical Architect Analysis''
      else if tag = js ''revenue_model_analyst'' then Some ''Revenue Model Analyst Analysis''
      else if tag = js ''moderator_aggregation'' then Some ''Moderator Aggregation''
      else if tag = js ''final_answer'' then Some ''Final Answer''
      else None)"

fun display_blocks :: "StreamEvent list \<Rightarrow> jsstring" where
  "display_blocks [] = []"
| "display_blocks (event # events) =
     (case section_label (type event) of
        Some label \<Rightarrow> section_block label (content event)
      | None \<Rightarrow> []) @ display_blocks events"

text \<open>
  The content of the last event with the given tag, if there is one.
\<close>

definition last_payload :: "jsstring \<Rightarrow> StreamEvent list \<Rightarrow> jsstring option" where
  "last_payload tag events =
     (let tagged = filter (\<lambda>event. type event = tag) events
      in if tagged = [] then None else Some (content (last tagged)))"

section \<open>Cancel and reset\<close>

text \<open>
  C6. \<open>handleCancel\<close> sets the in-flight flag to false and clears the live timeline, the
  error, the streaming display text and the streaming metadata; the historical timeline map
  and the list of Turns are as before (and so are the pending timeouts and the console).
\<close>

theorem handleCancel_effect:
  "isLoading (handleCancel s) = False
   \<and> processedEventsTimeline (handleCancel s) = []
   \<and> error (handleCancel s) = None
   \<and> currentStreamingMessage (handleCancel s) = []
   \<and> streamingMetadata (handleCancel s) = no_metadata
   \<and> historicalActivities (handleCancel s) = historicalActivities s
   \<and> messages (handleCancel s) = messages s
   \<and> timeouts (handleCancel s) = timeouts s
   \<and> console (handleCancel s) = console s
   \<and> dateNowCalls (handleCancel s) = dateNowCalls s"
  by (simp add: handleCancel_def)

text \<open>
  C7. \<open>handleNewAnalysis\<close> yields, from every state, an empty Turn list, an empty live
  timeline, an empty historical timeline map, no error, empty streaming display text and
  metadata, and in-flight false. The pending timeouts and the console are as before.
\<close>

theorem handleNewAnalysis_effect:
  "messages (handleNewAnalysis s) = []
   \<and> processedEventsTimeline (handleNewAnalysis s) = []
   \<and> historicalActivities (handleNewAnalysis s) = Map.empty
   \<and> error (handleNewAnalysis s) = None
   \<and> currentStreamingMessage (handleNewAnalysis s) = []
   \<and> streamingMetadata (handleNewAnalysis s) = no_metadata
   \<and> isLoading (handleNewAnalysis s) = False
   \<and> timeouts (handleNewAnalysis s) = timeouts s
   \<and> console (handleNewAnalysis s) = console s
   \<and> dateNowCalls (handleNewAnalysis s) = dateNowCalls s"
  by (simp add: handleNewAnalysis_def)

section \<open>The frame decoder\<close>

lemma split_nl_nonempty: "split_nl s \<noteq> []"
  by (induction s) (auto split: list.splits)

lemma split_nl_no_nl: "0x0A \<notin> set b \<Longrightarrow> split_nl b = [b]"
  by (induction b) auto

lemma last_split_nl_no_nl: "0x0A \<notin> set (last (split_nl x))"
  by (induction x) (auto split: list.splits simp: split_nl_nonempty)

text \<open>
  Splitting a text that continues: the complete lines seen so far stay, and the last piece
  is split again together with the continuation.
\<close>

lemma split_nl_append:
  "split_nl (x @ c) = butlast (split_nl x) @ split_nl (last (split_nl x) @ c)"
proof (induction x)
  case Nil
  show ?case by simp
next
  case (Cons a x)
  show ?case
  proof (cases "a = 0x0A")
    case True
    then show ?thesis using Cons by (simp add: split_nl_nonempty)
  next
    case False
    obtain l ls where sx: "split_nl x = l # ls"
      using split_nl_nonempty [of x] by (cases "split_nl x") auto
    show ?thesis
    proof (cases ls)
      case Nil
      then show ?thesis using False sx Cons by (simp split: list.splits)
    next
      case (Cons l' ls')
      then show ?thesis using False sx Cons.IH by (simp split: list.splits)
    qed
  qed
qed

lemma split_nl_terminated:
  "\<forall>l\<in>set ls. 0x0A \<notin> set l \<Longrightarrow> 0x0A \<notin> set r \<Longrightarrow>
   split_nl (concat (map (\<lambda>l. l @ [0x0A]) ls) @ r) = ls @ [r]"
proof (induction ls)
  case Nil
  then show ?case by (simp add: split_nl_no_nl)
next
  case (Cons l ls)
  have "split_nl (l @ [0x0A] @ t) = l # split_nl t" if "0x0A \<notin> set l" for l t
    using that by (induction l) auto
  then show ?case using Cons by simp
qed

lemma process_lines_append:
  "process_lines parse now scope (a @ b) s =
     process_lines parse now scope b (process_lines parse now scope a s)"
  by (induction a arbitrary: s) auto

lemma pop_split_nl:
  "pop (split_nl x) = (Some (last (split_nl x)), butlast (split_nl x))"
  by (simp add: pop_def split_nl_nonempty)

lemma or_empty_Some: "or_empty (Some l) = l"
  by (simp add: or_empty_def)

text \<open>
  The read loop handles the complete lines of the whole text, in order, whatever the
  chunks are, and is left with the last, unterminated piece.
\<close>

lemma read_loop_eq:
  "0x0A \<notin> set buffer \<Longrightarrow>
   read_loop parse now scope buffer chunks s =
     (last (split_nl (buffer @ concat chunks)),
      process_lines parse now scope (butlast (split_nl (buffer @ concat chunks))) s)"
proof (induction chunks arbitrary: buffer s)
  case Nil
  then show ?case by (simp add: split_nl_no_nl)
next
  case (Cons chunk chunks)
  let ?x = "buffer @ chunk"
  have sp: "split_nl (?x @ concat chunks) =
      butlast (split_nl ?x) @ split_nl (last (split_nl ?x) @ concat chunks)"
    by (rule split_nl_append)
  have ne: "split_nl (last (split_nl ?x) @ concat chunks) \<noteq> []"
    by (rule split_nl_nonempty)
  have "read_loop parse now scope buffer (chunk # chunks) s =
      read_loop parse now scope (last (split_nl ?x)) chunks
        (process_lines parse now scope (butlast (split_nl ?x)) s)"
    by (simp add: pop_split_nl or_empty_Some)
  also have "\<dots> = (last (split_nl (last (split_nl ?x) @ concat chunks)),
      process_lines parse now scope (butlast (split_nl (last (split_nl ?x) @ concat chunks)))
        (process_lines parse now scope (butlast (split_nl ?x)) s))"
    by (rule Cons.IH) (rule last_split_nl_no_nl)
  also have "\<dots> = (last (split_nl (buffer @ concat (chunk # chunks))),
      process_lines parse now scope (butlast (split_nl (buffer @ concat (chunk # chunks)))) s)"
    using sp ne by (simp add: process_lines_append butlast_append)
  finally show ?case .
qed

text \<open>
  C2. Let the text of the stream be the lines \<open>ls\<close>, each ended by a line feed, followed by
  an unterminated rest \<open>r\<close>. However that text is cut into chunks, the read loop handles
  exactly the lines \<open>ls\<close>, once each and in order, and is left with \<open>r\<close> in its buffer; when
  the stream ends, \<open>r\<close> is dropped without being handled.
\<close>

theorem frame_decoder_chunking:
  assumes "\<forall>l\<in>set ls. 0x0A \<notin> set l" and "0x0A \<notin> set r"
    and "concat chunks = concat (map (\<lambda>l. l @ [0x0A]) ls) @ r"
  shows "read_loop parse now scope [] chunks s = (r, process_lines parse now scope ls s)
    \<and> handleSubmit_stream parse now scope (body chunks read_done) s =
        (process_lines parse now scope ls s)\<lparr>isLoading := False\<rparr>"
proof -
  have "split_nl ([] @ concat chunks) = ls @ [r]"
    using assms by (simp add: split_nl_terminated)
  then have "read_loop parse now scope [] chunks s = (r, process_lines parse now scope ls s)"
    using read_loop_eq [of "[]" parse now scope chunks s] by simp
  then show ?thesis by (simp add: handleSubmit_stream_def)
qed

text \<open>
  The frame of a \<open>message\<close> event with content \<open>hi\<close>, cut inside its payload: one event is
  handled.
\<close>

theorem frame_decoder_chunking_witness:
  \<open>0x0A \<notin> set (js ''data: {"type":"message","content":"hi"}'')
   \<and> 0x0A \<notin> set ([] :: jsstring)
   \<and> concat [js ''data: {"type":"message","content":"hi'', js ''"}\<newline>'']
       = concat (map (\<lambda>l. l @ [0x0A]) [js ''data: {"type":"message","content":"hi"}'']) @ []
   \<and> read_loop example_parse (\<lambda>k. 0) first_render []
        [js ''data: {"type":"message","content":"hi'', js ''"}\<newline>''] initial
       = ([], initial\<lparr>currentStreamingMessage := js ''hi''\<rparr>)
   \<and> handleSubmit_stream example_parse (\<lambda>k. 0) first_render
        (body [js ''data: {"type":"message","content":"hi'', js ''"}\<newline>''] read_done) initial
       = initial\<lparr>currentStreamingMessage := js ''hi''\<rparr>\<close>
proof -
  have a: \<open>\<forall>l\<in>set [js ''data: {"type":"message","content":"hi"}'']. 0x0A \<notin> set l\<close>
    by (simp add: js_def)
  have b: "0x0A \<notin> set ([] :: jsstring)" by simp
  have c: \<open>concat [js ''data: {"type":"message","content":"hi'', js ''"}\<newline>'']
       = concat (map (\<lambda>l. l @ [0x0A]) [js ''data: {"type":"message","content":"hi"}'']) @ []\<close>
    by (simp add: js_def)
  have d: \<open>process_lines example_parse (\<lambda>k. 0) first_render
      [js ''data: {"type":"message","content":"hi"}''] initial
      = initial\<lparr>currentStreamingMessage := js ''hi''\<rparr>\<close>
    by (simp add: process_line_def startsWith_def slice_def example_parse_def
        handleStreamEvent_def js_def)
  have e: "initial\<lparr>currentStreamingMessage := js ''hi'', isLoading := False\<rparr>
     = initial\<lparr>currentStreamingMessage := js ''hi''\<rparr>"
    by (simp add: initial_def)
  show ?thesis
    using frame_decoder_chunking [OF a b c, of example_parse "\<lambda>k. 0" first_render initial]
      a c d e
    by simp
qed

section \<open>Dropped lines\<close>

lemma handleStreamEvent_console:
  "handleStreamEvent now scope event (s\<lparr>console := c\<rparr>) =
     (handleStreamEvent now scope event s)\<lparr>console := c\<rparr>"
  by (simp add: handleStreamEvent_def tick_def aiMessage_def Date_now_def Let_def)

lemma process_line_console:
  "\<exists>c'. process_line parse now scope line (s\<lparr>console := c\<rparr>) =
     (process_line parse now scope line s)\<lparr>console := c'\<rparr>"
  by (auto simp: process_line_def handleStreamEvent_console split: option.splits)

lemma process_lines_console:
  "\<exists>c'. process_lines parse now scope lines (s\<lparr>console := c\<rparr>) =
     (process_lines parse now scope lines s)\<lparr>console := c'\<rparr>"
proof (induction lines arbitrary: s c)
  case Nil
  show ?case by auto
next
  case (Cons line lines)
  obtain c1 where "process_line parse now scope line (s\<lparr>console := c\<rparr>) =
     (process_line parse now scope line s)\<lparr>console := c1\<rparr>"
    using process_line_console by blast
  then show ?case using Cons.IH by simp
qed

text \<open>
  C3. A line that does not begin with \<open>data: \<close> is skipped whatever the parser is (the
  parser is not consulted) and changes nothing. A line whose payload fails to decode only
  adds a warning to the console. In both cases the lines before and after it are handled
  as if the line were absent: the final state is the same, up to the console.
\<close>

theorem dropped_line:
  "(\<not> startsWith line (js ''data: '') \<longrightarrow>
      process_line parse now scope line s = s
    \<and> process_lines parse now scope (pre @ line # rest) s =
        process_lines parse now scope (pre @ rest) s)
   \<and> (startsWith line (js ''data: '') \<and> parse (slice 6 line) = None \<longrightarrow>
      process_line parse now scope line s =
        s\<lparr>console := console s @ [console_warn (js ''Failed to parse SSE event:'') line]\<rparr>
    \<and> (\<exists>c. process_lines parse now scope (pre @ line # rest) s =
          (process_lines parse now scope (pre @ rest) s)\<lparr>console := c\<rparr>))"
proof (intro conjI impI)
  assume n: "\<not> startsWith line (js ''data: '')"
  then show "process_line parse now scope line s = s"
    by (simp add: process_line_def)
  then show "process_lines parse now scope (pre @ line # rest) s =
        process_lines parse now scope (pre @ rest) s"
    using n by (simp add: process_lines_append process_line_def)
next
  assume f: "startsWith line (js ''data: '') \<and> parse (slice 6 line) = None"
  then show "process_line parse now scope line s =
        s\<lparr>console := console s @ [console_warn (js ''Failed to parse SSE event:'') line]\<rparr>"
    by (simp add: process_line_def)
next
  assume f: "startsWith line (js ''data: '') \<and> parse (slice 6 line) = None"
  let ?t = "process_lines parse now scope pre s"
  have "process_line parse now scope line ?t =
      ?t\<lparr>console := console ?t @ [console_warn (js ''Failed to parse SSE event:'') line]\<rparr>"
    using f by (simp add: process_line_def)
  then have "process_lines parse now scope (pre @ line # rest) s =
      process_lines parse now scope rest
        (?t\<lparr>console := console ?t @ [console_warn (js ''Failed to parse SSE event:'') line]\<rparr>)"
    by (simp add: process_lines_append)
  then show "\<exists>c. process_lines parse now scope (pre @ line # rest) s =
          (process_lines parse now scope (pre @ rest) s)\<lparr>console := c\<rparr>"
    using process_lines_console [where s = ?t and lines = rest]
    by (simp add: process_lines_append)
qed

text \<open>
  A line without the marker, and a frame with a truncated payload, between two valid
  frames.
\<close>

theorem dropped_line_witness:
  \<open>\<not> startsWith (js ''not-a-data-line'') (js ''data: '')
   \<and> process_lines example_parse (\<lambda>k. 0) first_render
        [js ''data: {"type":"message","content":"hi"}'', js ''not-a-data-line'',
         js ''data: {"type":"domain_expert","content":"Needs CRUD"}''] initial
     = process_lines example_parse (\<lambda>k. 0) first_render
        [js ''data: {"type":"message","content":"hi"}'',
         js ''data: {"type":"domain_expert","content":"Needs CRUD"}''] initial
   \<and> startsWith (js ''data: {"type":'') (js ''data: '')
   \<and> example_parse (slice 6 (js ''data: {"type":'')) = None
   \<and> (\<exists>c. process_lines example_parse (\<lambda>k. 0) first_render
        [js ''data: {"type":"message","content":"hi"}'', js ''data: {"type":'',
         js ''data: {"type":"domain_expert","content":"Needs CRUD"}''] initial
     = (process_lines example_parse (\<lambda>k. 0) first_render
        [js ''data: {"type":"message","content":"hi"}'',
         js ''data: {"type":"domain_expert","content":"Needs CRUD"}''] initial)
       \<lparr>console := c\<rparr>)\<close>
proof -
  have a: "\<not> startsWith (js ''not-a-data-line'') (js ''data: '')"
    by (simp add: startsWith_def js_def)
  have b: \<open>startsWith (js ''data: {"type":'') (js ''data: '')
      \<and> example_parse (slice 6 (js ''data: {"type":'')) = None\<close>
    by (simp add: startsWith_def slice_def example_parse_def js_def)
  show ?thesis
    using a b
      dropped_line [of "js ''not-a-data-line''" example_parse "\<lambda>k. 0" first_render initial
        \<open>[js ''data: {"type":"message","content":"hi"}'']\<close>
        \<open>[js ''data: {"type":"domain_expert","content":"Needs CRUD"}'']\<close>]
      dropped_line [of \<open>js ''data: {"type":''\<close> example_parse "\<lambda>k. 0" first_render initial
        \<open>[js ''data: {"type":"message","content":"hi"}'']\<close>
        \<open>[js ''data: {"type":"domain_expert","content":"Needs CRUD"}'']\<close>]
    by simp
qed

section \<open>The error event\<close>

lemma handleStreamEvent_error:
  "type event = js ''error'' \<Longrightarrow>
   handleStreamEvent now scope event s = s\<lparr>error := Some (content event)\<rparr>"
  by (simp add: handleStreamEvent_def js_def)

lemma handleStreamEvent_complete:
  "type event = js ''complete'' \<Longrightarrow>
   handleStreamEvent now scope event s =
     tick (s\<lparr>messages := messages s @ [aiMessage now scope s],
             historicalActivities := (historicalActivities s)
               (msg_id (aiMessage now scope s) \<mapsto> scope_processedEventsTimeline scope)\<rparr>)"
  by (simp add: handleStreamEvent_def js_def Let_def)

lemma aiMessage_error: "aiMessage now scope (s\<lparr>error := e\<rparr>) = aiMessage now scope s"
  by (simp add: aiMessage_def Date_now_def)

lemma aiMessage_type: "msg_type (aiMessage now scope s) = ai"
  by (simp add: aiMessage_def)

text \<open>
  C10. Handling an \<open>error\<close> event changes the error text and nothing else: the Turn list,
  the streaming display text, the streaming metadata, the live timeline and the historical
  timeline map are as before. The loop goes on with the lines after the error frame, and a
  \<open>complete\<close> event handled after the \<open>error\<close> event still appends an assistant Turn.
\<close>

theorem error_event_only_sets_error:
  "(type event = js ''error'' \<longrightarrow>
      handleStreamEvent now scope event s = s\<lparr>error := Some (content event)\<rparr>
    \<and> messages (handleStreamEvent now scope event s) = messages s
    \<and> currentStreamingMessage (handleStreamEvent now scope event s) = currentStreamingMessage s
    \<and> streamingMetadata (handleStreamEvent now scope event s) = streamingMetadata s
    \<and> processedEventsTimeline (handleStreamEvent now scope event s) = processedEventsTimeline s
    \<and> historicalActivities (handleStreamEvent now scope event s) = historicalActivities s
    \<and> (startsWith line (js ''data: '') \<and> parse (slice 6 line) = Some event \<longrightarrow>
         process_lines parse now scope (line # rest) s =
           process_lines parse now scope rest (s\<lparr>error := Some (content event)\<rparr>))
    \<and> (type event' = js ''complete'' \<longrightarrow>
         messages (handleStreamEvent now scope event' (handleStreamEvent now scope event s)) =
           messages s @ [aiMessage now scope s]
         \<and> msg_type (aiMessage now scope s) = ai))"
  by (simp add: handleStreamEvent_error handleStreamEvent_complete aiMessage_error
      aiMessage_type process_line_def tick_def)

text \<open>
  An \<open>error\<close> frame with content \<open>rate limited\<close>, followed by a \<open>complete\<close> frame.
\<close>

theorem error_event_only_sets_error_witness:
  \<open>type \<lparr>type = js ''error'', content = js ''rate limited''\<rparr> = js ''error''
   \<and> handleStreamEvent (\<lambda>k. 1000 + k) first_render
        \<lparr>type = js ''error'', content = js ''rate limited''\<rparr> initial
      = initial\<lparr>error := Some (js ''rate limited'')\<rparr>
   \<and> startsWith (js ''data: {"type":"error","content":"rate limited"}'') (js ''data: '')
   \<and> example_parse (slice 6 (js ''data: {"type":"error","content":"rate limited"}''))
      = Some \<lparr>type = js ''error'', content = js ''rate limited''\<rparr>
   \<and> process_lines example_parse (\<lambda>k. 1000 + k) first_render
        [js ''data: {"type":"error","content":"rate limited"}'',
         js ''data: {"type":"complete","content":""}''] initial
      = process_lines example_parse (\<lambda>k. 1000 + k) first_render
        [js ''data: {"type":"complete","content":""}'']
        (initial\<lparr>error := Some (js ''rate limited'')\<rparr>)
   \<and> type \<lparr>type = js ''complete'', content = []\<rparr> = js ''complete''
   \<and> messages (handleStreamEvent (\<lambda>k. 1000 + k) first_render
        \<lparr>type = js ''complete'', content = []\<rparr>
        (handleStreamEvent (\<lambda>k. 1000 + k) first_render
          \<lparr>type = js ''error'', content = js ''rate limited''\<rparr> initial))
      = messages initial @ [aiMessage (\<lambda>k. 1000 + k) first_render initial]\<close>
proof -
  let ?e = "\<lparr>type = js ''error'', content = js ''rate limited''\<rparr>"
  let ?c = "\<lparr>type = js ''complete'', content = []\<rparr>"
  have a: \<open>startsWith (js ''data: {"type":"error","content":"rate limited"}'') (js ''data: '')
   \<and> example_parse (slice 6 (js ''data: {"type":"error","content":"rate limited"}''))
      = Some ?e\<close>
    by (simp add: startsWith_def slice_def example_parse_def js_def)
  have c: "type ?e = js ''error''" "type ?c = js ''complete''" by simp_all
  note t = error_event_only_sets_error
      [of ?e "\<lambda>k. 1000 + k" first_render
        initial \<open>js ''data: {"type":"error","content":"rate limited"}''\<close> example_parse
        \<open>[js ''data: {"type":"complete","content":""}'']\<close> ?c]
  have "handleStreamEvent (\<lambda>k. 1000 + k) first_render ?e initial
      = initial\<lparr>error := Some (content ?e)\<rparr>"
    using t c by blast
  then have d: "handleStreamEvent (\<lambda>k. 1000 + k) first_render ?e initial
      = initial\<lparr>error := Some (js ''rate limited'')\<rparr>"
    by simp
  have \<open>process_lines example_parse (\<lambda>k. 1000 + k) first_render
        [js ''data: {"type":"error","content":"rate limited"}'',
         js ''data: {"type":"complete","content":""}''] initial
      = process_lines example_parse (\<lambda>k. 1000 + k) first_render
        [js ''data: {"type":"complete","content":""}'']
        (initial\<lparr>error := Some (content ?e)\<rparr>)\<close>
    using t c(1) a by blast
  then have e: \<open>process_lines example_parse (\<lambda>k. 1000 + k) first_render
        [js ''data: {"type":"error","content":"rate limited"}'',
         js ''data: {"type":"complete","content":""}''] initial
      = process_lines example_parse (\<lambda>k. 1000 + k) first_render
        [js ''data: {"type":"complete","content":""}'']
        (initial\<lparr>error := Some (js ''rate limited'')\<rparr>)\<close>
    by simp
  have f: "messages (handleStreamEvent (\<lambda>k. 1000 + k) first_render ?c
        (handleStreamEvent (\<lambda>k. 1000 + k) first_render ?e initial))
      = messages initial @ [aiMessage (\<lambda>k. 1000 + k) first_render initial]"
    using t c by blast
  show ?thesis
    using a c d e f by blast
qed

section \<open>Submit\<close>

lemma upt7: "[0..<7] = [0,1,2,3,4,5,6::nat]" by (simp add: upt_conv_Cons)

lemma trim_example: "trim (js ''Build a todo app'') \<noteq> []"
  by (simp add: trim_def js_def isWhiteSpace_def)

lemma trim_empty_iff: "trim text = [] \<longleftrightarrow> (\<forall>c\<in>set text. isWhiteSpace c)"
proof -
  have "trim text = [] \<longleftrightarrow> (\<forall>c\<in>set (dropWhile isWhiteSpace text). isWhiteSpace c)"
    by (simp add: trim_def)
  also have "\<dots> \<longleftrightarrow> dropWhile isWhiteSpace text = []"
  proof
    assume a: "\<forall>c\<in>set (dropWhile isWhiteSpace text). isWhiteSpace c"
    show "dropWhile isWhiteSpace text = []"
    proof (rule ccontr)
      assume n: "dropWhile isWhiteSpace text \<noteq> []"
      then have "\<not> isWhiteSpace (hd (dropWhile isWhiteSpace text))"
        by (rule hd_dropWhile)
      moreover have "hd (dropWhile isWhiteSpace text) \<in> set (dropWhile isWhiteSpace text)"
        using n by simp
      ultimately show False using a by blast
    qed
  next
    assume e: "dropWhile isWhiteSpace text = []"
    show "\<forall>c\<in>set (dropWhile isWhiteSpace text). isWhiteSpace c"
      unfolding e by simp
  qed
  also have "\<dots> \<longleftrightarrow> (\<forall>c\<in>set text. isWhiteSpace c)"
    by simp
  finally show ?thesis .
qed

lemma length_timelineEvents: "length timelineEvents = 7"
  by (simp add: timelineEvents_def)

lemma handleSubmit_sync_submitted:
  "trim text \<noteq> [] \<Longrightarrow>
   handleSubmit_sync now text s =
     s\<lparr>processedEventsTimeline := [], isLoading := True, error := None,
       currentStreamingMessage := [], streamingMetadata := no_metadata,
       messages := messages s @ [\<lparr>msg_type = human, msg_content = text,
         msg_id = toString (Date_now now s), metadata = None\<rparr>],
       timeouts := timeouts s @ map (\<lambda>i. (i * 1000, timelineEvents ! i)) [0..<7],
       dateNowCalls := Suc (dateNowCalls s)\<rparr>"
  by (simp add: handleSubmit_sync_def tick_def Let_def length_timelineEvents)

lemma handleStreamEvent_messages:
  "messages (handleStreamEvent now scope event s) = messages s \<or>
   messages (handleStreamEvent now scope event s) = messages s @ [aiMessage now scope s]"
  by (simp add: handleStreamEvent_def tick_def Let_def)

text \<open>
  C8. The trimmed input is empty exactly when every code unit of the input is white space
  (the empty input included), and then \<open>handleSubmit\<close> leaves the state as it is.
  Otherwise its synchronous part appends one user Turn with the input as content, clears
  the streaming display text, the streaming metadata and the error, and sets the in-flight
  flag. The Turns already in the list stay as they are: handling a stream event, a later
  submit, a cancel and a firing timeout keep them at the head of the list.
\<close>

theorem submit_effect:
  "(trim text = [] \<longleftrightarrow> (\<forall>c\<in>set text. isWhiteSpace c))
   \<and> (trim text = [] \<longrightarrow>
        handleSubmit_sync now text s = s
      \<and> handleSubmit parse now scope text effort response s = s)
   \<and> (trim text \<noteq> [] \<longrightarrow>
        messages (handleSubmit_sync now text s) =
          messages s @ [\<lparr>msg_type = human, msg_content = text,
            msg_id = toString (Date_now now s), metadata = None\<rparr>]
      \<and> currentStreamingMessage (handleSubmit_sync now text s) = []
      \<and> streamingMetadata (handleSubmit_sync now text s) = no_metadata
      \<and> error (handleSubmit_sync now text s) = None
      \<and> isLoading (handleSubmit_sync now text s) = True)
   \<and> take (length (messages t)) (messages (handleStreamEvent now scope event t)) = messages t
   \<and> take (length (messages t)) (messages (handleSubmit_sync now text' t)) = messages t
   \<and> messages (handleCancel t) = messages t
   \<and> messages (fireTimeout k t) = messages t"
proof -
  have a: "trim text = [] \<longleftrightarrow> (\<forall>c\<in>set text. isWhiteSpace c)"
    by (rule trim_empty_iff)
  have b: "trim text = [] \<longrightarrow>
        handleSubmit_sync now text s = s
      \<and> handleSubmit parse now scope text effort response s = s"
    by (simp add: handleSubmit_sync_def handleSubmit_def)
  have c: "trim text \<noteq> [] \<longrightarrow>
        messages (handleSubmit_sync now text s) =
          messages s @ [\<lparr>msg_type = human, msg_content = text,
            msg_id = toString (Date_now now s), metadata = None\<rparr>]
      \<and> currentStreamingMessage (handleSubmit_sync now text s) = []
      \<and> streamingMetadata (handleSubmit_sync now text s) = no_metadata
      \<and> error (handleSubmit_sync now text s) = None
      \<and> isLoading (handleSubmit_sync now text s) = True"
    by (simp add: handleSubmit_sync_submitted)
  have d: "take (length (messages t)) (messages (handleStreamEvent now scope event t)) = messages t"
    using handleStreamEvent_messages [of now scope event t] by auto
  have e: "take (length (messages t)) (messages (handleSubmit_sync now text' t)) = messages t"
    by (cases "trim text' = []") (simp_all add: handleSubmit_sync_submitted, simp add: handleSubmit_sync_def)
  have f: "messages (handleCancel t) = messages t \<and> messages (fireTimeout k t) = messages t"
    by (simp add: handleCancel_def fireTimeout_def)
  show ?thesis using a b c d e f by blast
qed

text \<open>
  Two spaces are rejected; \<open>Build a todo app\<close> is submitted.
\<close>

theorem submit_effect_witness:
  "trim (js ''  '') = []
   \<and> handleSubmit_sync (\<lambda>k. 1000 + k) (js ''  '') initial = initial
   \<and> trim (js ''Build a todo app'') \<noteq> []
   \<and> messages (handleSubmit_sync (\<lambda>k. 1000 + k) (js ''Build a todo app'') initial) =
       messages initial @ [\<lparr>msg_type = human, msg_content = js ''Build a todo app'',
         msg_id = toString (Date_now (\<lambda>k. 1000 + k) initial), metadata = None\<rparr>]
   \<and> isLoading (handleSubmit_sync (\<lambda>k. 1000 + k) (js ''Build a todo app'') initial) = True"
proof -
  have a: "trim (js ''  '') = []"
    by (simp add: trim_def js_def isWhiteSpace_def)
  have b: "trim (js ''Build a todo app'') \<noteq> []"
    by (rule trim_example)
  note t1 = submit_effect [of "js ''  ''" "\<lambda>k. 1000 + k" initial]
  note t2 = submit_effect [of "js ''Build a todo app''" "\<lambda>k. 1000 + k" initial]
  show ?thesis using a b t1 t2 by blast
qed

section \<open>The error event and the in-flight flag\<close>

lemma handleSubmit_stream_isLoading:
  "isLoading (handleSubmit_stream parse now scope response s) = False"
  by (simp add: handleSubmit_stream_def)

lemma handleSubmit_stream_one_line:
  assumes "0x0A \<notin> set line" and "concat chunks = line @ [0x0A]"
  shows "handleSubmit_stream parse now scope (body chunks read_done) s =
    (process_line parse now scope line s)\<lparr>isLoading := False\<rparr>"
proof -
  have "split_nl (concat (map (\<lambda>l. l @ [0x0A]) [line]) @ []) = [line] @ [[]]"
    using assms(1) by (intro split_nl_terminated) simp_all
  then have "split_nl ([] @ concat chunks) = [line, []]"
    using assms(2) by simp
  then have "read_loop parse now scope [] chunks s = ([], process_lines parse now scope [line] s)"
    using read_loop_eq [of "[]" parse now scope chunks s] by simp
  then show ?thesis by (simp add: handleSubmit_stream_def)
qed

text \<open>
  Right after a submit the in-flight flag is set, and it is still set after an \<open>error\<close>
  event has been handled: the handler does not clear it.
\<close>

theorem error_event_counterexample:
  "isLoading (handleSubmit_sync (\<lambda>k. 1000 + k) (js ''Build a todo app'') initial)
   \<and> isLoading (handleStreamEvent (\<lambda>k. 1000 + k) first_render
        \<lparr>type = js ''error'', content = js ''rate limited''\<rparr>
        (handleSubmit_sync (\<lambda>k. 1000 + k) (js ''Build a todo app'') initial))"
  by (simp add: handleSubmit_sync_submitted trim_example handleStreamEvent_error)

text \<open>
  C4, as the code has it. Handling an \<open>error\<close> event sets the error to exactly its content
  and leaves the Turn list and the in-flight flag as they were. The in-flight flag is
  cleared by the \<^verbatim>\<open>finally\<close> of \<open>handleSubmit\<close>, when the handling of the response ends.
  So after a submit whose response is one \<open>error\<close> frame and then the end of the stream,
  the error is the content of the event, the in-flight flag is false, and the user Turn is
  the only Turn added.
\<close>

theorem error_event_in_flight:
  "(type event = js ''error'' \<longrightarrow>
      error (handleStreamEvent now scope event s) = Some (content event)
    \<and> messages (handleStreamEvent now scope event s) = messages s
    \<and> isLoading (handleStreamEvent now scope event s) = isLoading s)
   \<and> isLoading (handleSubmit_stream parse now scope response s) = False
   \<and> (type event = js ''error'' \<and> startsWith line (js ''data: '')
      \<and> parse (slice 6 line) = Some event \<and> 0x0A \<notin> set line
      \<and> concat chunks = line @ [0x0A] \<and> trim submittedInputValue \<noteq> [] \<longrightarrow>
        error (handleSubmit parse now scope submittedInputValue effort
          (body chunks read_done) s) =
          Some (content event)
      \<and> isLoading (handleSubmit parse now scope submittedInputValue effort
          (body chunks read_done) s) = False
      \<and> messages (handleSubmit parse now scope submittedInputValue effort
          (body chunks read_done) s) =
          messages s @ [\<lparr>msg_type = human, msg_content = submittedInputValue,
            msg_id = toString (Date_now now s), metadata = None\<rparr>])"
proof (intro conjI impI)
  assume "type event = js ''error''"
  then show "error (handleStreamEvent now scope event s) = Some (content event)"
    and "messages (handleStreamEvent now scope event s) = messages s"
    and "isLoading (handleStreamEvent now scope event s) = isLoading s"
    by (simp_all add: handleStreamEvent_error)
next
  show "isLoading (handleSubmit_stream parse now scope response s) = False"
    by (rule handleSubmit_stream_isLoading)
next
  assume a: "type event = js ''error'' \<and> startsWith line (js ''data: '')
      \<and> parse (slice 6 line) = Some event \<and> 0x0A \<notin> set line
      \<and> concat chunks = line @ [0x0A] \<and> trim submittedInputValue \<noteq> []"
  let ?s1 = "handleSubmit_sync now submittedInputValue s"
  have "handleSubmit parse now scope submittedInputValue effort
          (body chunks read_done) s =
      (process_line parse now scope line ?s1)\<lparr>isLoading := False\<rparr>"
    using a by (simp add: handleSubmit_def handleSubmit_stream_one_line)
  also have "process_line parse now scope line ?s1 = ?s1\<lparr>error := Some (content event)\<rparr>"
    using a by (simp add: process_line_def handleStreamEvent_error)
  finally have r: "handleSubmit parse now scope submittedInputValue effort
          (body chunks read_done) s =
      ?s1\<lparr>error := Some (content event), isLoading := False\<rparr>" .
  show "error (handleSubmit parse now scope submittedInputValue effort
          (body chunks read_done) s) =
          Some (content event)"
    and "isLoading (handleSubmit parse now scope submittedInputValue effort
          (body chunks read_done) s) = False"
    and "messages (handleSubmit parse now scope submittedInputValue effort
          (body chunks read_done) s) =
          messages s @ [\<lparr>msg_type = human, msg_content = submittedInputValue,
            msg_id = toString (Date_now now s), metadata = None\<rparr>]"
    using a by (simp_all add: r handleSubmit_sync_submitted)
qed

text \<open>
  The submit of \<open>Build a todo app\<close> answered by an \<open>error\<close> frame with content
  \<open>rate limited\<close>.
\<close>

theorem error_event_in_flight_witness:
  \<open>error (handleSubmit example_parse (\<lambda>k. 1000 + k) first_render (js ''Build a todo app'')
      (js ''general'')
      (body [js ''data: {"type":"error","content":"rate limited"}\<newline>''] read_done) initial)
     = Some (js ''rate limited'')
   \<and> isLoading (handleSubmit example_parse (\<lambda>k. 1000 + k) first_render (js ''Build a todo app'')
      (js ''general'')
      (body [js ''data: {"type":"error","content":"rate limited"}\<newline>''] read_done) initial)
     = False
   \<and> messages (handleSubmit example_parse (\<lambda>k. 1000 + k) first_render (js ''Build a todo app'')
      (js ''general'')
      (body [js ''data: {"type":"error","content":"rate limited"}\<newline>''] read_done) initial)
     = [\<lparr>msg_type = human, msg_content = js ''Build a todo app'',
         msg_id = toString 1000, metadata = None\<rparr>]\<close>
proof -
  let ?e = "\<lparr>type = js ''error'', content = js ''rate limited''\<rparr>"
  have a1: \<open>type ?e = js ''error''
      \<and> startsWith (js ''data: {"type":"error","content":"rate limited"}'') (js ''data: '')
      \<and> example_parse (slice 6 (js ''data: {"type":"error","content":"rate limited"}''))
          = Some ?e
      \<and> 0x0A \<notin> set (js ''data: {"type":"error","content":"rate limited"}'')
      \<and> concat [js ''data: {"type":"error","content":"rate limited"}\<newline>'']
          = js ''data: {"type":"error","content":"rate limited"}'' @ [0x0A]\<close>
    by (simp add: startsWith_def slice_def example_parse_def js_def)
  have a: \<open>type ?e = js ''error''
      \<and> startsWith (js ''data: {"type":"error","content":"rate limited"}'') (js ''data: '')
      \<and> example_parse (slice 6 (js ''data: {"type":"error","content":"rate limited"}''))
          = Some ?e
      \<and> 0x0A \<notin> set (js ''data: {"type":"error","content":"rate limited"}'')
      \<and> concat [js ''data: {"type":"error","content":"rate limited"}\<newline>'']
          = js ''data: {"type":"error","content":"rate limited"}'' @ [0x0A]
      \<and> trim (js ''Build a todo app'') \<noteq> []\<close>
    using a1 trim_example by blast
  note t = error_event_in_flight [where event = ?e
      and line = \<open>js ''data: {"type":"error","content":"rate limited"}''\<close>
      and parse = example_parse
      and chunks = \<open>[js ''data: {"type":"error","content":"rate limited"}\<newline>'']\<close>
      and submittedInputValue = \<open>js ''Build a todo app''\<close> and now = "\<lambda>k. 1000 + k"
      and scope = first_render and s = initial and effort = \<open>js ''general''\<close>]
  have b: "content ?e = js ''rate limited''" by simp
  have c: "messages initial = []" "Date_now (\<lambda>k. 1000 + k) initial = 1000"
    by (simp_all add: initial_def Date_now_def)
  from t a show ?thesis unfolding b c append_Nil by blast
qed

section \<open>The timeline simulation\<close>

lemma scheduled_entries:
  "map (\<lambda>i. (i * 1000, timelineEvents ! i)) [0..<7] =
     [(0, \<lparr>title = js ''Query Classification'',
          data = js ''Analyzing query type and routing to appropriate specialists...''\<rparr>),
      (1000, \<lparr>title = js ''Domain Expert Analysis'',
          data = js ''Analyzing business logic and domain-specific requirements...''\<rparr>),
      (2000, \<lparr>title = js ''UX/UI Specialist Analysis'',
          data = js ''Analyzing user experience and interface design requirements...''\<rparr>),
      (3000, \<lparr>title = js ''Technical Architect Analysis'',
          data = js ''Analyzing technical architecture and implementation requirements...''\<rparr>),
      (4000, \<lparr>title = js ''Revenue Model Analyst Analysis'',
          data = js ''Analyzing revenue models and monetization strategies...''\<rparr>),
      (5000, \<lparr>title = js ''Moderator Aggregation'',
          data = js ''Consolidating feedback and resolving conflicts...''\<rparr>),
      (6000, \<lparr>title = js ''Final Answer Generation'',
          data = js ''Generating comprehensive final answer...''\<rparr>)]"
  unfolding upt7 by (simp add: timelineEvents_def)

text \<open>
  A submit, the first scheduled entry fires, then the session is cancelled (or reset): the
  live timeline is empty. Then the next scheduled entry of the cancelled request fires and
  is appended to the live timeline.
\<close>

theorem stale_timeout_counterexample:
  "processedEventsTimeline (handleCancel (fireTimeout 0
      (handleSubmit_sync (\<lambda>k. 1000 + k) (js ''Build a todo app'') initial))) = []
   \<and> processedEventsTimeline (fireTimeout 0 (handleCancel (fireTimeout 0
      (handleSubmit_sync (\<lambda>k. 1000 + k) (js ''Build a todo app'') initial)))) =
     [\<lparr>title = js ''Domain Expert Analysis'',
       data = js ''Analyzing business logic and domain-specific requirements...''\<rparr>]
   \<and> processedEventsTimeline (fireTimeout 0 (handleNewAnalysis (fireTimeout 0
      (handleSubmit_sync (\<lambda>k. 1000 + k) (js ''Build a todo app'') initial)))) =
     [\<lparr>title = js ''Domain Expert Analysis'',
       data = js ''Analyzing business logic and domain-specific requirements...''\<rparr>]"
proof -
  have "timeouts (handleSubmit_sync (\<lambda>k. 1000 + k) (js ''Build a todo app'') initial) =
      map (\<lambda>i. (i * 1000, timelineEvents ! i)) [0..<7]"
    by (simp add: handleSubmit_sync_submitted trim_example initial_def)
  then show ?thesis
    unfolding scheduled_entries
    by (simp add: fireTimeout_def handleCancel_def handleNewAnalysis_def)
qed

text \<open>
  C5, as the code has it. A submit schedules the seven entries, entry \<open>i\<close> with delay
  \<open>i * 1000\<close>. Cancel and reset empty the live timeline and leave every scheduled entry
  pending. A pending entry that fires is appended to the live timeline as it is then, also
  right after a cancel or a reset.
\<close>

theorem scheduled_entries_fire:
  "timeouts (handleCancel s) = timeouts s
   \<and> timeouts (handleNewAnalysis s) = timeouts s
   \<and> processedEventsTimeline (handleCancel s) = []
   \<and> processedEventsTimeline (handleNewAnalysis s) = []
   \<and> (trim submittedInputValue \<noteq> [] \<longrightarrow>
        timeouts (handleSubmit_sync now submittedInputValue s) =
          timeouts s @ map (\<lambda>i. (i * 1000, timelineEvents ! i)) [0..<7])
   \<and> (k < length (timeouts s) \<longrightarrow>
        processedEventsTimeline (fireTimeout k s) =
          processedEventsTimeline s @ [snd (timeouts s ! k)]
      \<and> timeouts (fireTimeout k s) = take k (timeouts s) @ drop (Suc k) (timeouts s)
      \<and> processedEventsTimeline (fireTimeout k (handleCancel s)) = [snd (timeouts s ! k)]
      \<and> processedEventsTimeline (fireTimeout k (handleNewAnalysis s)) = [snd (timeouts s ! k)])"
  by (simp add: handleSubmit_sync_submitted fireTimeout_def handleCancel_def
      handleNewAnalysis_def)

text \<open>
  The second entry of a request that was cancelled right after the submit.
\<close>

theorem scheduled_entries_fire_witness:
  "trim (js ''Build a todo app'') \<noteq> []
   \<and> timeouts (handleSubmit_sync (\<lambda>k. 1000 + k) (js ''Build a todo app'') initial) =
       timeouts initial @ map (\<lambda>i. (i * 1000, timelineEvents ! i)) [0..<7]
   \<and> 1 < length (timeouts (handleSubmit_sync (\<lambda>k. 1000 + k) (js ''Build a todo app'') initial))
   \<and> processedEventsTimeline (fireTimeout 1 (handleCancel
        (handleSubmit_sync (\<lambda>k. 1000 + k) (js ''Build a todo app'') initial))) =
       [snd (timeouts (handleSubmit_sync (\<lambda>k. 1000 + k) (js ''Build a todo app'') initial) ! 1)]"
proof -
  let ?s = "handleSubmit_sync (\<lambda>k. 1000 + k) (js ''Build a todo app'') initial"
  have a: "trim (js ''Build a todo app'') \<noteq> []" by (rule trim_example)
  have b: "timeouts ?s = timeouts initial @ map (\<lambda>i. (i * 1000, timelineEvents ! i)) [0..<7]"
    using a scheduled_entries_fire
      [where submittedInputValue = "js ''Build a todo app''" and s = initial]
    by blast
  have c: "1 < length (timeouts ?s)"
    unfolding b by simp
  show ?thesis
    using a b c scheduled_entries_fire [where s = ?s and k = 1] by blast
qed

section \<open>Decimal strings\<close>

lemma unat_digit: "d < 10 \<Longrightarrow> unat (digit d) = 48 + d"
  unfolding digit_def by (rule of_nat_inverse [OF refl]) simp

lemma digit_inj: "a < 10 \<Longrightarrow> b < 10 \<Longrightarrow> digit a = digit b \<Longrightarrow> a = b"
proof -
  assume a: "a < 10" and b: "b < 10" and e: "digit a = digit b"
  have "48 + a = unat (digit a)" using a by (simp only: unat_digit)
  also have "\<dots> = unat (digit b)" by (simp only: e)
  also have "\<dots> = 48 + b" using b by (simp only: unat_digit)
  finally show "a = b" by simp
qed

lemma toString_nonempty: "toString n \<noteq> []"
  by (subst toString.simps) simp

text \<open>Two numbers with the same decimal string are equal.\<close>

lemma toString_inj: "toString m = toString n \<Longrightarrow> m = n"
proof (induction m arbitrary: n rule: toString.induct)
  case (1 m)
  show ?case
  proof (cases "m < 10")
    case True
    then have m: "toString m = [digit m]" by (subst toString.simps) simp
    show ?thesis
    proof (cases "n < 10")
      case True
      then have "toString n = [digit n]" by (subst toString.simps) simp
      with m "1.prems" \<open>m < 10\<close> True show ?thesis by (simp add: digit_inj)
    next
      case False
      then have "toString n = toString (n div 10) @ [digit (n mod 10)]"
        by (subst toString.simps) simp
      with m "1.prems" have "[] @ [digit m] = toString (n div 10) @ [digit (n mod 10)]"
        by simp
      then have "toString (n div 10) = []" by (simp only: append1_eq_conv)
      then show ?thesis using toString_nonempty by blast
    qed
  next
    case False
    then have m: "toString m = toString (m div 10) @ [digit (m mod 10)]"
      by (subst toString.simps) simp
    show ?thesis
    proof (cases "n < 10")
      case True
      then have "toString n = [digit n]" by (subst toString.simps) simp
      with m "1.prems" have "toString (m div 10) @ [digit (m mod 10)] = [] @ [digit n]"
        by simp
      then have "toString (m div 10) = []" by (simp only: append1_eq_conv)
      then show ?thesis using toString_nonempty by blast
    next
      case n: False
      then have "toString n = toString (n div 10) @ [digit (n mod 10)]"
        by (subst toString.simps) simp
      with m "1.prems" have e: "toString (m div 10) = toString (n div 10)"
        and d: "digit (m mod 10) = digit (n mod 10)" by simp_all
      from "1.IH" [OF False e] have "m div 10 = n div 10" .
      moreover from d have "m mod 10 = n mod 10" by (simp add: digit_inj)
      ultimately show ?thesis by (metis div_mult_mod_eq)
    qed
  qed
qed

section \<open>The ids of the Turns\<close>

lemma handleStreamEvent_other:
  "type event \<noteq> js ''complete'' \<Longrightarrow>
   messages (handleStreamEvent now scope event s) = messages s
   \<and> dateNowCalls (handleStreamEvent now scope event s) = dateNowCalls s"
  by (simp add: handleStreamEvent_def)

lemma ids_stamped_append:
  assumes inv: "ids_stamped now s"
    and v: "now (dateNowCalls s) \<le> v" and v': "v < now (Suc (dateNowCalls s))"
    and m: "messages s' = messages s @ [m]" "msg_id m = toString v"
    and k: "dateNowCalls s' = Suc (dateNowCalls s)"
  shows "ids_stamped now s'"
proof -
  have old: "\<forall>m'\<in>set (messages s). \<exists>w<now (dateNowCalls s). msg_id m' = toString w"
    using inv by (simp add: ids_stamped_def)
  have fresh: "toString v \<notin> set (map msg_id (messages s))"
  proof
    assume "toString v \<in> set (map msg_id (messages s))"
    then obtain m' where "m' \<in> set (messages s)" and "msg_id m' = toString v" by auto
    with old obtain w where "w < now (dateNowCalls s)" and "toString w = toString v"
      by metis
    then have "w = v" by (simp add: toString_inj)
    with \<open>w < now (dateNowCalls s)\<close> v show False by simp
  qed
  have "distinct (map msg_id (messages s'))"
    using inv fresh m by (simp add: ids_stamped_def)
  moreover have "\<forall>m'\<in>set (messages s'). \<exists>w<now (dateNowCalls s'). msg_id m' = toString w"
  proof
    fix m' assume "m' \<in> set (messages s')"
    then consider "m' \<in> set (messages s)" | "m' = m" using m by auto
    then show "\<exists>w<now (dateNowCalls s'). msg_id m' = toString w"
    proof cases
      case 1
      with old obtain w where "w < now (dateNowCalls s)" and "msg_id m' = toString w"
        by blast
      with v v' k show ?thesis by (intro exI [of _ w]) simp
    next
      case 2
      with m v' k show ?thesis by (intro exI [of _ v]) simp
    qed
  qed
  ultimately show ?thesis by (simp add: ids_stamped_def)
qed

lemma ids_stamped_same:
  "ids_stamped now s \<Longrightarrow> messages s' = messages s \<Longrightarrow> dateNowCalls s' = dateNowCalls s
   \<Longrightarrow> ids_stamped now s'"
  by (simp add: ids_stamped_def)

lemma perform_ids_stamped:
  assumes gap: "\<forall>k. now k + 2 \<le> now (Suc k)" and inv: "ids_stamped now s"
  shows "ids_stamped now (perform now scope a s)"
proof (cases a)
  case (Submit submittedInputValue)
  show ?thesis
  proof (cases "trim submittedInputValue = []")
    case True
    then show ?thesis using inv Submit by (simp add: handleSubmit_sync_def)
  next
    case False
    have "now (dateNowCalls s) + 2 \<le> now (Suc (dateNowCalls s))"
      using gap by blast
    then have "now (dateNowCalls s) < now (Suc (dateNowCalls s))"
      by linarith
    then show ?thesis
      unfolding Submit perform.simps
      by (intro ids_stamped_append [OF inv, where v = "now (dateNowCalls s)"
            and m = "\<lparr>msg_type = human, msg_content = submittedInputValue,
              msg_id = toString (now (dateNowCalls s)), metadata = None\<rparr>"])
        (simp_all add: handleSubmit_sync_submitted False Date_now_def)
  qed
next
  case (Event event)
  show ?thesis
  proof (cases "type event = js ''complete''")
    case True
    have "now (dateNowCalls s) + 2 \<le> now (Suc (dateNowCalls s))"
      using gap by blast
    then have "now (dateNowCalls s) + 1 < now (Suc (dateNowCalls s))"
      by linarith
    then show ?thesis
      unfolding Event perform.simps
      by (intro ids_stamped_append [OF inv, where v = "now (dateNowCalls s) + 1"
            and m = "aiMessage now scope s"])
        (simp_all add: handleStreamEvent_complete True tick_def aiMessage_def Date_now_def)
  next
    case False
    then show ?thesis
      unfolding Event perform.simps
      by (intro ids_stamped_same [OF inv]) (simp_all add: handleStreamEvent_other)
  qed
next
  case (Finished e)
  then show ?thesis
    by (cases e) (auto intro!: ids_stamped_same [OF inv] simp: catch_err_def)
next
  case Cancel
  then show ?thesis by (auto intro!: ids_stamped_same [OF inv] simp: handleCancel_def)
next
  case NewAnalysis
  then show ?thesis by (simp add: ids_stamped_def handleNewAnalysis_def)
next
  case (Timeout k)
  then show ?thesis by (auto intro!: ids_stamped_same [OF inv] simp: fireTimeout_def)
qed

lemma run_ids_stamped:
  "\<forall>k. now k + 2 \<le> now (Suc k) \<Longrightarrow> ids_stamped now s \<Longrightarrow>
   ids_stamped now (run now scope actions s)"
  unfolding run_def
  by (induction actions arbitrary: s) (simp_all add: perform_ids_stamped)

text \<open>
  C9, as the code has it. The id of a user Turn is the decimal string of the reading of the
  clock at the submit, the id of an assistant Turn that of the reading at the \<open>complete\<close>
  event plus one. If every reading of the clock is at least 2 ms after the one before,
  then after every sequence of actions of a session that starts with no Turns, the ids of
  the Turns in the list are pairwise distinct.
\<close>

theorem turn_ids_distinct:
  assumes "\<forall>k. now k + 2 \<le> now (Suc k)" and "messages s = []"
  shows "distinct (map msg_id (messages (run now scope actions s)))"
proof -
  have "ids_stamped now s" using assms(2) by (simp add: ids_stamped_def)
  then have "ids_stamped now (run now scope actions s)"
    using assms(1) by (intro run_ids_stamped)
  then show ?thesis by (simp add: ids_stamped_def)
qed

lemma run_example:
  "map msg_id (messages (run now scope
      [Submit (js ''Build a todo app''), Event \<lparr>type = js ''complete'', content = []\<rparr>,
       Submit (js ''Build a todo app'')] initial)) =
     [toString (now 0), toString (now (Suc 0) + 1), toString (now (Suc (Suc 0)))]"
  by (simp add: run_def handleSubmit_sync_submitted trim_example handleStreamEvent_complete
      tick_def aiMessage_def Date_now_def initial_def)

text \<open>
  A submit at 1000, a \<open>complete\<close> event at 1001 and a second submit at 1002: the assistant
  Turn and the second user Turn both get the id \<open>1002\<close>.
\<close>

theorem turn_ids_counterexample:
  "map msg_id (messages (run (\<lambda>k. 1000 + k) first_render
      [Submit (js ''Build a todo app''), Event \<lparr>type = js ''complete'', content = []\<rparr>,
       Submit (js ''Build a todo app'')] initial)) =
     [toString 1000, toString 1002, toString 1002]
   \<and> \<not> distinct (map msg_id (messages (run (\<lambda>k. 1000 + k) first_render
      [Submit (js ''Build a todo app''), Event \<lparr>type = js ''complete'', content = []\<rparr>,
       Submit (js ''Build a todo app'')] initial)))"
  unfolding run_example by simp

text \<open>
  The same three actions with readings 1000, 1002 and 1004.
\<close>

theorem turn_ids_distinct_witness:
  "(\<forall>k. (\<lambda>k. 1000 + 2 * k) k + 2 \<le> (\<lambda>k. 1000 + 2 * k) (Suc k))
   \<and> messages initial = []
   \<and> distinct (map msg_id (messages (run (\<lambda>k. 1000 + 2 * k) first_render
      [Submit (js ''Build a todo app''), Event \<lparr>type = js ''complete'', content = []\<rparr>,
       Submit (js ''Build a todo app'')] initial)))"
proof -
  have a: "\<forall>k. (\<lambda>k. 1000 + 2 * k) k + 2 \<le> (\<lambda>k. 1000 + 2 * k) (Suc k)" by simp
  have b: "messages initial = []" by (simp add: initial_def)
  show ?thesis
    using a b turn_ids_distinct [OF a b] by blast
qed

section \<open>Section events and the assistant Turn\<close>

text \<open>
  What the section events do to the streaming state: each appends its labelled block to
  the display text, and the streaming metadata holds, for each tag, the content of the last
  event with that tag.
\<close>

lemma handleStreamEvent_section:
  "section_label (type event) = Some label \<Longrightarrow>
   currentStreamingMessage (handleStreamEvent now scope event s) =
     currentStreamingMessage s @ section_block label (content event)
   \<and> messages (handleStreamEvent now scope event s) = messages s
   \<and> historicalActivities (handleStreamEvent now scope event s) = historicalActivities s
   \<and> dateNowCalls (handleStreamEvent now scope event s) = dateNowCalls s"
  by (simp add: section_label_def handleStreamEvent_def js_def split: if_splits)

lemma fold_sections:
  "list_all (\<lambda>event. section_label (type event) \<noteq> None) events \<Longrightarrow>
   currentStreamingMessage (fold (handleStreamEvent now scope) events s) =
     currentStreamingMessage s @ display_blocks events
   \<and> messages (fold (handleStreamEvent now scope) events s) = messages s
   \<and> historicalActivities (fold (handleStreamEvent now scope) events s) = historicalActivities s
   \<and> dateNowCalls (fold (handleStreamEvent now scope) events s) = dateNowCalls s"
proof (induction events arbitrary: s)
  case Nil
  show ?case by simp
next
  case (Cons event events)
  then obtain label where l: "section_label (type event) = Some label" by auto
  from Cons have "list_all (\<lambda>event. section_label (type event) \<noteq> None) events" by simp
  from Cons.IH [OF this, of "handleStreamEvent now scope event s"]
    handleStreamEvent_section [OF l, of now scope s]
  show ?case by (simp add: l)
qed

text \<open>
  The Turn a \<open>complete\<close> event creates is built from the scope of the closure, not from the
  streaming state: after any section events it is the Turn that would have been created
  before them.
\<close>

lemma aiMessage_cong:
  "dateNowCalls s' = dateNowCalls s \<Longrightarrow> aiMessage now scope s' = aiMessage now scope s"
  by (simp add: aiMessage_def Date_now_def)

lemma complete_after_sections:
  assumes "list_all (\<lambda>event. section_label (type event) \<noteq> None) events"
    and "type event = js ''complete''"
  shows "messages (handleStreamEvent now scope event
           (fold (handleStreamEvent now scope) events s)) =
         messages s @ [aiMessage now scope s]"
proof -
  let ?s' = "fold (handleStreamEvent now scope) events s"
  have a: "messages ?s' = messages s" and b: "dateNowCalls ?s' = dateNowCalls s"
    using fold_sections [OF assms(1), of now scope s] by simp_all
  show ?thesis
    using assms(2) a aiMessage_cong [OF b]
    by (simp add: handleStreamEvent_complete tick_def)
qed


lemma last_payload_snoc:
  "last_payload tag (events @ [event]) =
     (if type event = tag then Some (content event) else last_payload tag events)"
  by (simp add: last_payload_def)

lemma fold_metadata:
  "streamingMetadata (fold (handleStreamEvent now scope) events s) =
     \<lparr>domain_analysis = (case last_payload (js ''domain_expert'') events of
         None \<Rightarrow> domain_analysis (streamingMetadata s) | Some p \<Rightarrow> Some p),
      ux_analysis = (case last_payload (js ''ux_ui_specialist'') events of
         None \<Rightarrow> ux_analysis (streamingMetadata s) | Some p \<Rightarrow> Some p),
      technical_analysis = (case last_payload (js ''technical_architect'') events of
         None \<Rightarrow> technical_analysis (streamingMetadata s) | Some p \<Rightarrow> Some p),
      revenue_analysis = (case last_payload (js ''revenue_model_analyst'') events of
         None \<Rightarrow> revenue_analysis (streamingMetadata s) | Some p \<Rightarrow> Some p),
      moderator_aggregation = (case last_payload (js ''moderator_aggregation'') events of
         None \<Rightarrow> moderator_aggregation (streamingMetadata s) | Some p \<Rightarrow> Some p),
      final_answer = (case last_payload (js ''final_answer'') events of
         None \<Rightarrow> final_answer (streamingMetadata s) | Some p \<Rightarrow> Some p)\<rparr>"
proof (induction events rule: rev_induct)
  case Nil
  show ?case by (simp add: last_payload_def)
next
  case (snoc event events)
  have d: "js ''domain_expert'' \<noteq> js ''ux_ui_specialist''"
    "js ''domain_expert'' \<noteq> js ''technical_architect''"
    "js ''domain_expert'' \<noteq> js ''revenue_model_analyst''"
    "js ''domain_expert'' \<noteq> js ''moderator_aggregation''"
    "js ''domain_expert'' \<noteq> js ''final_answer''"
    "js ''domain_expert'' \<noteq> js ''message''"
    "js ''domain_expert'' \<noteq> js ''complete''"
    "js ''domain_expert'' \<noteq> js ''error''"
    "js ''ux_ui_specialist'' \<noteq> js ''technical_architect''"
    "js ''ux_ui_specialist'' \<noteq> js ''revenue_model_analyst''"
    "js ''ux_ui_specialist'' \<noteq> js ''moderator_aggregation''"
    "js ''ux_ui_specialist'' \<noteq> js ''final_answer''"
    "js ''ux_ui_specialist'' \<noteq> js ''message''"
    "js ''ux_ui_specialist'' \<noteq> js ''complete''"
    "js ''ux_ui_specialist'' \<noteq> js ''error''"
    "js ''technical_architect'' \<noteq> js ''revenue_model_analyst''"
    "js ''technical_architect'' \<noteq> js ''moderator_aggregation''"
    "js ''technical_architect'' \<noteq> js ''final_answer''"
    "js ''technical_architect'' \<noteq> js ''message''"
    "js ''technical_architect'' \<noteq> js ''complete''"
    "js ''technical_architect'' \<noteq> js ''error''"
    "js ''revenue_model_analyst'' \<noteq> js ''moderator_aggregation''"
    "js ''revenue_model_analyst'' \<noteq> js ''final_answer''"
    "js ''revenue_model_analyst'' \<noteq> js ''message''"
    "js ''revenue_model_analyst'' \<noteq> js ''complete''"
    "js ''revenue_model_analyst'' \<noteq> js ''error''"
    "js ''moderator_aggregation'' \<noteq> js ''final_answer''"
    "js ''moderator_aggregation'' \<noteq> js ''message''"
    "js ''moderator_aggregation'' \<noteq> js ''complete''"
    "js ''moderator_aggregation'' \<noteq> js ''error''"
    "js ''final_answer'' \<noteq> js ''message''"
    "js ''final_answer'' \<noteq> js ''complete''"
    "js ''final_answer'' \<noteq> js ''error''"
    by (simp_all add: js_def)
  let ?s' = "fold (handleStreamEvent now scope) events s"
  have "streamingMetadata (handleStreamEvent now scope event ?s') =
      (if type event = js ''domain_expert'' then
         (streamingMetadata ?s')\<lparr>domain_analysis := Some (content event)\<rparr>
       else if type event = js ''ux_ui_specialist'' then
         (streamingMetadata ?s')\<lparr>ux_analysis := Some (content event)\<rparr>
       else if type event = js ''technical_architect'' then
         (streamingMetadata ?s')\<lparr>technical_analysis := Some (content event)\<rparr>
       else if type event = js ''revenue_model_analyst'' then
         (streamingMetadata ?s')\<lparr>revenue_analysis := Some (content event)\<rparr>
       else if type event = js ''moderator_aggregation'' then
         (streamingMetadata ?s')\<lparr>moderator_aggregation := Some (content event)\<rparr>
       else if type event = js ''final_answer'' then
         (streamingMetadata ?s')\<lparr>final_answer := Some (content event)\<rparr>
       else streamingMetadata ?s')"
    by (simp add: handleStreamEvent_def tick_def Let_def)
  then show ?case
    unfolding fold_append comp_apply fold_simps snoc.IH last_payload_snoc
    using d by (simp add: d [symmetric])
qed


text \<open>
  A closure that read the state at the \<open>complete\<close> event would give the Turn the display
  text; the closure of the first render gives it the fallback text and no section.
\<close>

lemma aiMessage_scope_of:
  "msg_content (aiMessage now (scope_of s) s) =
     (if currentStreamingMessage s = [] then js ''Analysis completed''
      else currentStreamingMessage s)"
  by (simp add: aiMessage_def scope_of_def)

lemma aiMessage_first_render:
  "aiMessage now first_render s =
     \<lparr>msg_type = ai, msg_content = js ''Analysis completed'',
      msg_id = toString (Date_now now s + 1),
      metadata = Some \<lparr>domain_analysis = None, ux_analysis = None, technical_analysis = None,
        revenue_analysis = None, moderator_aggregation = None, final_answer = None,
        processing_time = Some 0, query_type = Some (js ''general''),
        debate_category = None, debate_resolution = None\<rparr>\<rparr>"
  by (simp add: aiMessage_def first_render_def no_metadata_def)

text \<open>
  C1, at the submit of \<open>Build a todo app\<close> answered by a \<open>domain_expert\<close> frame with
  content \<open>Needs CRUD\<close> and a \<open>complete\<close> frame. The streaming display text holds the
  labelled block and the streaming metadata holds the payload, but the assistant Turn has
  the content \<open>Analysis completed\<close> and no \<open>domain_analysis\<close>.
\<close>

theorem complete_turn_from_first_render:
  \<open>currentStreamingMessage
     (handleSubmit example_parse (\<lambda>k. 1000 + k) first_render (js ''Build a todo app'')
       (js ''general'')
       (body [js ''data: {"type":"domain_expert","content":"Needs CRUD"}\<newline>'',
              js ''data: {"type":"complete","content":""}\<newline>''] read_done) initial)
     = js ''\<newline>\<newline>**Domain Expert Analysis:**\<newline>Needs CRUD''
   \<and> domain_analysis (streamingMetadata
     (handleSubmit example_parse (\<lambda>k. 1000 + k) first_render (js ''Build a todo app'')
       (js ''general'')
       (body [js ''data: {"type":"domain_expert","content":"Needs CRUD"}\<newline>'',
              js ''data: {"type":"complete","content":""}\<newline>''] read_done) initial))
     = Some (js ''Needs CRUD'')
   \<and> messages
     (handleSubmit example_parse (\<lambda>k. 1000 + k) first_render (js ''Build a todo app'')
       (js ''general'')
       (body [js ''data: {"type":"domain_expert","content":"Needs CRUD"}\<newline>'',
              js ''data: {"type":"complete","content":""}\<newline>''] read_done) initial)
     = [\<lparr>msg_type = human, msg_content = js ''Build a todo app'', msg_id = toString 1000,
         metadata = None\<rparr>,
        \<lparr>msg_type = ai, msg_content = js ''Analysis completed'', msg_id = toString 1002,
         metadata = Some \<lparr>domain_analysis = None, ux_analysis = None,
           technical_analysis = None, revenue_analysis = None, moderator_aggregation = None,
           final_answer = None, processing_time = Some 0, query_type = Some (js ''general''),
           debate_category = None, debate_resolution = None\<rparr>\<rparr>]\<close>
proof -
  let ?d = \<open>js ''data: {"type":"domain_expert","content":"Needs CRUD"}''\<close>
  let ?c = \<open>js ''data: {"type":"complete","content":""}''\<close>
  let ?chunks = \<open>[js ''data: {"type":"domain_expert","content":"Needs CRUD"}\<newline>'',
              js ''data: {"type":"complete","content":""}\<newline>'']\<close>
  let ?s1 = "handleSubmit_sync (\<lambda>k. 1000 + k) (js ''Build a todo app'') initial"
  have nl: "\<forall>l\<in>set [?d, ?c]. 0x0A \<notin> set l" by (simp add: js_def)
  have cc: "concat ?chunks = concat (map (\<lambda>l. l @ [0x0A]) [?d, ?c]) @ []"
    by (simp add: js_def)
  have "split_nl ([] @ concat ?chunks) = [?d, ?c] @ [[]]"
    unfolding cc append_Nil by (rule split_nl_terminated [OF nl]) simp
  then have "read_loop example_parse (\<lambda>k. 1000 + k) first_render [] ?chunks ?s1 =
      ([], process_lines example_parse (\<lambda>k. 1000 + k) first_render [?d, ?c] ?s1)"
    using read_loop_eq [of "[]" example_parse "\<lambda>k. 1000 + k" first_render ?chunks ?s1]
    by simp
  then have run: "handleSubmit example_parse (\<lambda>k. 1000 + k) first_render
      (js ''Build a todo app'') (js ''general'') (body ?chunks read_done) initial =
      (process_lines example_parse (\<lambda>k. 1000 + k) first_render [?d, ?c] ?s1)
        \<lparr>isLoading := False\<rparr>"
    by (simp add: handleSubmit_def handleSubmit_stream_def trim_example)
  have pd: "process_line example_parse (\<lambda>k. 1000 + k) first_render ?d ?s1 =
      handleStreamEvent (\<lambda>k. 1000 + k) first_render
        \<lparr>type = js ''domain_expert'', content = js ''Needs CRUD''\<rparr> ?s1"
    by (simp add: process_line_def startsWith_def slice_def example_parse_def js_def)
  have pc: "process_line example_parse (\<lambda>k. 1000 + k) first_render ?c s =
      handleStreamEvent (\<lambda>k. 1000 + k) first_render
        \<lparr>type = js ''complete'', content = []\<rparr> s" for s
    by (simp add: process_line_def startsWith_def slice_def example_parse_def js_def)
  have hd: "handleStreamEvent (\<lambda>k. 1000 + k) first_render
        \<lparr>type = js ''domain_expert'', content = js ''Needs CRUD''\<rparr> ?s1 =
      ?s1\<lparr>streamingMetadata := (streamingMetadata ?s1)
             \<lparr>domain_analysis := Some (js ''Needs CRUD'')\<rparr>,
          currentStreamingMessage := currentStreamingMessage ?s1 @
             section_block ''Domain Expert Analysis'' (js ''Needs CRUD'')\<rparr>"
    by (simp add: handleStreamEvent_def)
  have blk: "section_block ''Domain Expert Analysis'' (js ''Needs CRUD'') =
      js ''\<newline>\<newline>**Domain Expert Analysis:**\<newline>Needs CRUD''"
    by (simp add: section_block_def js_def)
  show ?thesis
    unfolding run process_lines.simps pd pc hd blk
    by (simp add: handleStreamEvent_complete aiMessage_first_render tick_def
        handleSubmit_sync_submitted trim_example Date_now_def initial_def)
qed

end
